theory Spec2Isabelle
  imports Main "HOL-Library.Word"
begin

unbundle bit_operations_syntax

section \<open>The stopwatch library (include/stopwatch.h)\<close>

text \<open>
  The header defines a clock reading the time-stamp counter (\<open>rdtscp_clock\<close>), a deadline
  (\<open>timer\<close>), the helper \<open>make_timer\<close>, and the two measuring templates \<open>time\<close> and
  \<open>sample\<close>. Everything that reads the clock or calls the user's callable is modelled by
  explicit state passing over a world \<open>'w\<close>: the world holds whatever the clock and the
  callable can observe or change (the counter, the callable's captures, a call counter).
\<close>

subsection \<open>Durations and time points (std::chrono)\<close>

text \<open>
  \<open>std::chrono::duration<rep, period>\<close> wraps a tick count of type \<open>rep\<close>, and
  \<open>std::chrono::time_point<Clock, duration>\<close> wraps the duration since the clock's epoch.
  The representation type is the parameter \<open>'r\<close>: \<open>64 word\<close> for \<open>std::uint64_t\<close>, whose
  arithmetic wraps around, and \<open>int\<close> for a signed representation within its range (signed
  overflow is undefined in C++ and is not modelled).
\<close>

datatype 'r duration = Duration (count: 'r)

datatype 'r time_point = Time_point (time_since_epoch: "'r duration")

text \<open>\<open>std::ratio<Num, Denom>\<close>; the denominator defaults to 1.\<close>

record ratio =
  num :: int
  den :: int

text \<open>The operators of std::chrono that the header uses, each on the tick counts.\<close>

definition tp_plus :: "'r::plus time_point \<Rightarrow> 'r duration \<Rightarrow> 'r time_point" where
  \<comment> \<open>\<open>time_point + duration\<close>\<close>
  "tp_plus t d = Time_point (Duration (count (time_since_epoch t) + count d))"

definition tp_minus :: "'r::minus time_point \<Rightarrow> 'r time_point \<Rightarrow> 'r duration" where
  \<comment> \<open>\<open>time_point - time_point\<close>\<close>
  "tp_minus a b = Duration (count (time_since_epoch a) - count (time_since_epoch b))"

definition tp_ge :: "'r::ord time_point \<Rightarrow> 'r time_point \<Rightarrow> bool" where
  \<comment> \<open>\<open>time_point >= time_point\<close>\<close>
  "tp_ge a b = (count (time_since_epoch a) \<ge> count (time_since_epoch b))"

definition std_sort :: "'r::linorder duration list \<Rightarrow> 'r duration list" where
  \<comment> \<open>\<open>std::sort(first, last)\<close> on durations: ascending by \<open>operator<\<close>, which compares the
      tick counts. Durations with equal counts are equal, so the result does not depend on
      the sorting algorithm.\<close>
  "std_sort xs = sort_key count xs"

subsection \<open>Computations: state, results and exceptions\<close>

text \<open>
  A computation takes the world and returns the world it leaves behind together with
  either the exception it threw (\<open>Inl\<close>) or its value (\<open>Inr\<close>). \<open>Clock::now()\<close> is
  \<open>noexcept\<close>: it returns a time point and the world after the read. A callable that does
  not return is outside this model.
\<close>

type_synonym ('e, 'a, 'w) comp = "'w \<Rightarrow> ('e + 'a) \<times> 'w"

type_synonym ('r, 'w) clock_now = "'w \<Rightarrow> 'r time_point \<times> 'w"

subsection \<open>rdtscp\_clock\<close>

text \<open>
  \<open>rep = std::uint64_t\<close>, \<open>period = std::ratio<1>\<close>. The body of \<open>now()\<close> is chosen by the
  preprocessor. On \<open>__APPLE__\<close> and \<open>__linux__\<close> the inline assembly runs \<open>rdtscp\<close> and binds
  EDX to \<open>hi\<close> and EAX to \<open>lo\<close>; on \<open>__WIN32\<close> the compiler intrinsic \<open>__rdtscp(&aux)\<close>
  returns the 64-bit count and stores the processor id in \<open>aux\<close>. The instruction and the
  intrinsic are not part of the header, so the processor is a parameter.
\<close>

type_synonym rdtscp_rep = "64 word"

definition rdtscp_period :: ratio where
  "rdtscp_period = \<lparr>num = 1, den = 1\<rparr>"

datatype platform = APPLE | LINUX | WIN32

record 'w cpu =
  asm_rdtscp :: "'w \<Rightarrow> (32 word \<times> 32 word) \<times> 'w"  \<comment> \<open>outputs \<open>(hi, lo)\<close> = (EDX, EAX)\<close>
  intrin_rdtscp :: "'w \<Rightarrow> (64 word \<times> 32 word) \<times> 'w"  \<comment> \<open>\<open>(return value, aux)\<close>\<close>

definition rdtscp_clock_now :: "platform \<Rightarrow> 'w cpu \<Rightarrow> (rdtscp_rep, 'w) clock_now" where
  "rdtscp_clock_now p c w =
     (case p of
        APPLE \<Rightarrow>
          (let ((hi, lo), w') = asm_rdtscp c w
           in (Time_point (Duration (push_bit 32 (ucast hi :: 64 word) OR ucast lo)), w'))
      | LINUX \<Rightarrow>
          (let ((hi, lo), w') = asm_rdtscp c w
           in (Time_point (Duration (push_bit 32 (ucast hi :: 64 word) OR ucast lo)), w'))
      | WIN32 \<Rightarrow>
          (let ((lo, aux), w') = intrin_rdtscp c w
           in (Time_point (Duration lo), w')))"

subsection \<open>timer\<close>

text \<open>The struct has the single member \<open>const time_point expiry\<close>.\<close>

record 'r timer =
  expiry :: "'r time_point"

definition timer_of_duration ::
  "('r::plus, 'w) clock_now \<Rightarrow> 'r duration \<Rightarrow> 'w \<Rightarrow> 'r timer \<times> 'w" where
  \<comment> \<open>\<open>explicit timer(const duration duration) : expiry(Clock::now() + duration)\<close>\<close>
  "timer_of_duration Clock_now d w =
     (let (n, w') = Clock_now w in (\<lparr>expiry = tp_plus n d\<rparr>, w'))"

definition timer_of_time_point :: "'r time_point \<Rightarrow> 'r timer" where
  \<comment> \<open>\<open>explicit timer(const time_point expiry) : expiry(expiry)\<close>\<close>
  "timer_of_time_point e = \<lparr>expiry = e\<rparr>"

text \<open>
  The two \<open>const\<close> member functions. Their parameter \<open>now\<close> has the default argument
  \<open>Clock::now()\<close>, which C++ evaluates at each call that omits the argument: \<open>None\<close> is
  the omitted argument.
\<close>

definition default_now ::
  "('r, 'w) clock_now \<Rightarrow> 'r time_point option \<Rightarrow> 'w \<Rightarrow> 'r time_point \<times> 'w" where
  "default_now Clock_now arg w = (case arg of Some n \<Rightarrow> (n, w) | None \<Rightarrow> Clock_now w)"

definition timer_done ::
  "('r::ord, 'w) clock_now \<Rightarrow> 'r timer \<Rightarrow> 'r time_point option \<Rightarrow> 'w \<Rightarrow> bool \<times> 'w" where
  \<comment> \<open>\<open>timer::done\<close>\<close>
  "timer_done Clock_now t arg w =
     (let (now, w') = default_now Clock_now arg w in (tp_ge now (expiry t), w'))"

definition timer_remaining ::
  "('r::minus, 'w) clock_now \<Rightarrow> 'r timer \<Rightarrow> 'r time_point option \<Rightarrow> 'w \<Rightarrow> 'r duration \<times> 'w" where
  \<comment> \<open>\<open>timer::remaining\<close>\<close>
  "timer_remaining Clock_now t arg w =
     (let (now, w') = default_now Clock_now arg w in (tp_minus (expiry t) now, w'))"

definition make_timer ::
  "('r::plus, 'w) clock_now \<Rightarrow> 'r duration \<Rightarrow> 'w \<Rightarrow> 'r timer \<times> 'w" where
  \<comment> \<open>\<open>return timer<Clock>(duration);\<close>\<close>
  "make_timer Clock_now d w = timer_of_duration Clock_now d w"

subsection \<open>time and sample\<close>

definition time :: "('r::minus, 'w) clock_now \<Rightarrow> ('e, 'a, 'w) comp \<Rightarrow> ('e, 'r duration, 'w) comp" where
  "time Clock_now function w =
     (let (start, w1) = Clock_now w
      in case function w1 of
           (Inl e, w2) \<Rightarrow> (Inl e, w2)
         | (Inr _, w2) \<Rightarrow> (let (stop, w3) = Clock_now w2 in (Inr (tp_minus stop start), w3)))"

text \<open>
  The \<open>for\<close> loop of \<open>sample\<close>, from index \<open>i\<close> on: \<open>samples[i] = time<Clock>(function)\<close>.
  An exception leaves the loop and the function at once.
\<close>

function sample_loop ::
  "('r::minus, 'w) clock_now \<Rightarrow> ('e, 'a, 'w) comp \<Rightarrow> nat \<Rightarrow> nat \<Rightarrow> 'r duration list \<Rightarrow>
     ('e, 'r duration list, 'w) comp" where
  "sample_loop Clock_now function N i samples w =
     (if i < N then
        (case time Clock_now function w of
           (Inl e, w') \<Rightarrow> (Inl e, w')
         | (Inr d, w') \<Rightarrow> sample_loop Clock_now function N (Suc i) (samples[i := d]) w')
      else (Inr samples, w))"
  by pat_completeness auto
termination
  by (relation "measure (\<lambda>(Clock_now, function, N, i, samples, w). N - i)") auto

text \<open>
  \<open>std::array<duration, N> samples;\<close> is not initialised: its \<open>N\<close> elements hold an
  indeterminate value, the parameter \<open>junk\<close>, until the loop has assigned them.
\<close>

definition sample ::
  "nat \<Rightarrow> ('r::{minus, linorder}, 'w) clock_now \<Rightarrow> ('e, 'a, 'w) comp \<Rightarrow> 'r duration \<Rightarrow>
     ('e, 'r duration list, 'w) comp" where
  "sample N Clock_now function junk w =
     (case sample_loop Clock_now function N 0 (replicate N junk) w of
        (Inl e, w') \<Rightarrow> (Inl e, w')
      | (Inr samples, w') \<Rightarrow> (Inr (std_sort samples), w'))"

subsection \<open>Calls on a timer object\<close>

text \<open>
  An existing \<open>timer\<close> object offers exactly the two member functions above; both are
  declared \<open>const\<close> and the member \<open>expiry\<close> is \<open>const\<close>, so a call hands back the object
  as it found it. \<open>timer_call\<close> returns the call's value, the object after the call and
  the world after the call; \<open>timer_calls\<close> makes a sequence of calls on one object.
\<close>

datatype 'r timer_op = Done "'r time_point option" | Remaining "'r time_point option"

datatype 'r timer_value = Bool bool | Span "'r duration"

definition timer_call ::
  "('r::{ord, minus}, 'w) clock_now \<Rightarrow> 'r timer \<Rightarrow> 'r timer_op \<Rightarrow> 'w \<Rightarrow>
     ('r timer_value \<times> 'r timer) \<times> 'w" where
  "timer_call Clock_now t c w =
     (case c of
        Done arg \<Rightarrow> (let (b, w') = timer_done Clock_now t arg w in ((Bool b, t), w'))
      | Remaining arg \<Rightarrow> (let (d, w') = timer_remaining Clock_now t arg w in ((Span d, t), w')))"

fun timer_calls ::
  "('r::{ord, minus}, 'w) clock_now \<Rightarrow> 'r timer \<Rightarrow> 'r timer_op list \<Rightarrow> 'w \<Rightarrow>
     ('r timer_value list \<times> 'r timer) \<times> 'w" where
  "timer_calls Clock_now t [] w = (([], t), w)"
| "timer_calls Clock_now t (c # cs) w =
     (let ((v, t'), w') = timer_call Clock_now t c w;
          ((vs, t''), w'') = timer_calls Clock_now t' cs w'
      in ((v # vs, t''), w''))"

subsection \<open>Default template arguments\<close>

text \<open>
  Each template names the clock it uses when the caller gives none:
  \<open>template <class Clock = std::chrono::system_clock> struct timer\<close>, the same for
  \<open>make_timer\<close>, and \<open>class Clock = rdtscp_clock\<close> for \<open>time\<close> and \<open>sample\<close>. \<open>None\<close> is
  the omitted template argument.
\<close>

datatype clock_name = system_clock | rdtscp_clock

datatype component = Timer | Make_timer | Time | Sample

definition default_Clock :: "component \<Rightarrow> clock_name" where
  "default_Clock c =
     (case c of
        Timer \<Rightarrow> system_clock
      | Make_timer \<Rightarrow> system_clock
      | Time \<Rightarrow> rdtscp_clock
      | Sample \<Rightarrow> rdtscp_clock)"

definition Clock_of :: "component \<Rightarrow> clock_name option \<Rightarrow> clock_name" where
  "Clock_of c arg = (case arg of None \<Rightarrow> default_Clock c | Some k \<Rightarrow> k)"

subsection \<open>A test bench: a scripted counter and a counting callable\<close>

text \<open>
  For running the templates on concrete inputs: the world records how often the callable
  was invoked, how often the counter was read, and the values \<open>(EDX, EAX)\<close> that the
  coming \<open>rdtscp\<close> instructions deliver. \<open>bench_callable raise_at\<close> counts its invocations
  and throws when it finds the count at \<open>raise_at\<close>.
\<close>

record bench =
  calls :: nat
  reads :: nat
  script :: "(32 word \<times> 32 word) list"

definition bench_asm :: "bench \<Rightarrow> (32 word \<times> 32 word) \<times> bench" where
  "bench_asm b =
     ((case script b of [] \<Rightarrow> (0, 0) | r # _ \<Rightarrow> r),
      b\<lparr>reads := Suc (reads b), script := tl (script b)\<rparr>)"

definition bench_intrin :: "bench \<Rightarrow> (64 word \<times> 32 word) \<times> bench" where
  "bench_intrin b =
     ((case script b of [] \<Rightarrow> (0, 0) | (hi, lo) # _ \<Rightarrow> (push_bit 32 (ucast hi) OR ucast lo, 0)),
      b\<lparr>reads := Suc (reads b), script := tl (script b)\<rparr>)"

definition bench_cpu :: "bench cpu" where
  "bench_cpu = \<lparr>asm_rdtscp = bench_asm, intrin_rdtscp = bench_intrin\<rparr>"

definition bench_callable :: "nat option \<Rightarrow> (string, unit, bench) comp" where
  "bench_callable raise_at b =
     (if raise_at = Some (calls b) then Inl ''boom'' else Inr (),
      b\<lparr>calls := Suc (calls b)\<rparr>)"

section \<open>Auxiliary facts\<close>

subsection \<open>Words\<close>

lemma unat_32_less:
  fixes x :: "32 word"
  shows "unat x < 2 ^ 32"
  using unsigned_less [of x, where 'a = nat] by simp

lemma unat_ucast_32_64:
  fixes x :: "32 word"
  shows "unat (ucast x :: 64 word) = unat x"
  using unat_32_less [of x] by (simp add: unsigned_ucast_eq take_bit_nat_eq_self_iff)

lemma unat_push_hi:
  fixes hi :: "32 word"
  shows "unat (push_bit 32 (ucast hi :: 64 word)) = unat hi * 2 ^ 32"
proof -
  have "unat hi * 2 ^ 32 < 2 ^ 64"
    using unat_32_less [of hi] by simp
  then have "unat (ucast hi :: 64 word) * unat (2 ^ 32 :: 64 word) < 2 ^ LENGTH(64)"
    by (simp add: unat_ucast_32_64)
  then have "unat ((ucast hi :: 64 word) * 2 ^ 32) = unat (ucast hi :: 64 word) * unat (2 ^ 32 :: 64 word)"
    by (simp only: unat_mult_lem)
  then show ?thesis
    by (simp add: push_bit_eq_mult unat_ucast_32_64)
qed

lemma combine_add:
  fixes hi lo :: "32 word"
  shows "push_bit 32 (ucast hi :: 64 word) OR ucast lo = push_bit 32 (ucast hi) + ucast lo"
  by (rule disjunctive_add [symmetric]) (auto simp add: bit_simps dest: bit_imp_le_length)

lemma combine_unat:
  fixes hi lo :: "32 word"
  shows "unat (push_bit 32 (ucast hi :: 64 word) OR ucast lo) = unat hi * 2 ^ 32 + unat lo"
proof -
  have "unat hi * 2 ^ 32 + unat lo < 2 ^ 64"
    using unat_32_less [of hi] unat_32_less [of lo] by simp
  then have "unat (push_bit 32 (ucast hi :: 64 word)) + unat (ucast lo :: 64 word) < 2 ^ LENGTH(64)"
    by (simp add: unat_push_hi unat_ucast_32_64)
  then have "unat (push_bit 32 (ucast hi :: 64 word) + ucast lo)
      = unat (push_bit 32 (ucast hi :: 64 word)) + unat (ucast lo :: 64 word)"
    by (simp only: unat_add_lem)
  then show ?thesis
    by (simp add: combine_add unat_push_hi unat_ucast_32_64)
qed

lemma combine_hi:
  fixes hi lo :: "32 word"
  shows "ucast (drop_bit 32 (push_bit 32 (ucast hi :: 64 word) OR ucast lo)) = hi"
  by (rule bit_word_eqI) (auto simp add: bit_simps dest: bit_imp_le_length)

lemma combine_lo:
  fixes hi lo :: "32 word"
  shows "ucast (push_bit 32 (ucast hi :: 64 word) OR ucast lo) = lo"
  by (rule bit_word_eqI) (auto simp add: bit_simps)

lemma unat_sub_wraps:
  fixes e n :: "64 word"
  assumes "e < n"
  shows "unat (e - n) = 2 ^ 64 - (unat n - unat e)"
proof -
  from assms have lt: "unat e < unat n" by (simp add: word_less_nat_alt)
  have "unat n < 2 ^ 64" using unsigned_less [of n, where 'a = nat] by simp
  with lt show ?thesis by (simp add: unat_sub_if_size word_size)
qed

subsection \<open>Calls on one timer\<close>

lemma timer_call_object:
  "snd (fst (timer_call Clock_now t c w)) = t"
  by (simp add: timer_call_def split: timer_op.splits prod.splits)

lemma timer_calls_object:
  "snd (fst (timer_calls Clock_now t cs w)) = t"
proof (induction cs arbitrary: w)
  case Nil
  show ?case by simp
next
  case (Cons c cs)
  obtain v t' w' where c: "timer_call Clock_now t c w = ((v, t'), w')"
    by (cases "timer_call Clock_now t c w") auto
  with timer_call_object [of Clock_now t c w] have t': "t' = t" by simp
  obtain vs t'' w'' where cs: "timer_calls Clock_now t cs w' = ((vs, t''), w'')"
    by (cases "timer_calls Clock_now t cs w'") auto
  with Cons [of w'] have "t'' = t" by simp
  with c cs t' show ?case by simp
qed

subsection \<open>One timing, and the sampling loop\<close>

declare sample_loop.simps [simp del]

lemma time_raises:
  assumes "fst (f (snd (Clock_now w))) = Inl e"
  shows "time Clock_now f w = (Inl e, snd (f (snd (Clock_now w))))"
proof -
  obtain start w1 where c1: "Clock_now w = (start, w1)" by (cases "Clock_now w")
  obtain r w2 where f: "f w1 = (r, w2)" by (cases "f w1")
  from assms c1 f have "r = Inl e" by simp
  with c1 f show ?thesis by (simp add: time_def)
qed

lemma time_returns:
  assumes "\<not> isl (fst (f (snd (Clock_now w))))"
  shows "time Clock_now f w
           = (Inr (tp_minus (fst (Clock_now (snd (f (snd (Clock_now w)))))) (fst (Clock_now w))),
              snd (Clock_now (snd (f (snd (Clock_now w))))))"
proof -
  obtain start w1 where c1: "Clock_now w = (start, w1)" by (cases "Clock_now w")
  obtain r w2 where f: "f w1 = (r, w2)" by (cases "f w1")
  from assms c1 f have "\<not> isl r" by simp
  then obtain a where r: "r = Inr a" by (cases r) auto
  obtain stop w3 where c2: "Clock_now w2 = (stop, w3)" by (cases "Clock_now w2")
  show ?thesis by (simp add: time_def c1 f r c2)
qed

lemma sample_loop_exit:
  "\<not> i < N \<Longrightarrow> sample_loop Clock_now f N i samples w = (Inr samples, w)"
  by (simp add: sample_loop.simps [of _ _ _ i])

lemma sample_loop_raise:
  "i < N \<Longrightarrow> time Clock_now f w = (Inl e, w1) \<Longrightarrow>
   sample_loop Clock_now f N i samples w = (Inl e, w1)"
  by (simp add: sample_loop.simps [of _ _ _ i])

lemma sample_loop_step:
  "i < N \<Longrightarrow> time Clock_now f w = (Inr d, w1) \<Longrightarrow>
   sample_loop Clock_now f N i samples w
     = sample_loop Clock_now f N (Suc i) (samples[i := d]) w1"
  by (simp add: sample_loop.simps [of _ _ _ i])

lemma sample_loop_length:
  "sample_loop Clock_now f N i samples w = (Inr s, w') \<Longrightarrow> length s = length samples"
proof (induction "N - i" arbitrary: i samples w)
  case 0
  then show ?case by (simp add: sample_loop_exit)
next
  case (Suc n)
  then have lt: "i < N" and n: "n = N - Suc i" by simp_all
  obtain r w1 where t: "time Clock_now f w = (r, w1)" by (cases "time Clock_now f w")
  show ?case
  proof (cases r)
    case (Inl e)
    with Suc.prems lt t show ?thesis by (simp add: sample_loop_raise)
  next
    case (Inr d)
    with Suc.prems lt t
    have "sample_loop Clock_now f N (Suc i) (samples[i := d]) w1 = (Inr s, w')"
      by (simp add: sample_loop_step)
    from Suc(1) [OF n this] show ?thesis by simp
  qed
qed

lemma sample_loop_completes:
  assumes "\<forall>w. \<not> isl (fst (f w))"
  shows "\<exists>s w'. sample_loop Clock_now f N i samples w = (Inr s, w')"
proof (induction "N - i" arbitrary: i samples w)
  case 0
  then show ?case by (simp add: sample_loop_exit)
next
  case (Suc n)
  then have lt: "i < N" and n: "n = N - Suc i" by simp_all
  from assms have "\<not> isl (fst (f (snd (Clock_now w))))" by simp
  from time_returns [where f = f and Clock_now = Clock_now and w = w, OF this] obtain d w1 where t: "time Clock_now f w = (Inr d, w1)" by blast
  from Suc(1) [OF n] obtain s w' where
    "sample_loop Clock_now f N (Suc i) (samples[i := d]) w1 = (Inr s, w')" by blast
  with lt t show ?case by (simp add: sample_loop_step)
qed

text \<open>
  A call counter is any observation \<open>cnt\<close> of the world that each invocation of the
  callable raises by one and that reading the clock leaves alone; \<open>rds\<close> counts the
  clock rds in the same way.
\<close>

lemma sample_loop_calls:
  assumes clk: "\<forall>w. cnt (snd (Clock_now w)) = cnt w"
    and inv: "\<forall>w. cnt (snd (f w)) = Suc (cnt w)"
    and ok: "\<forall>w. \<not> isl (fst (f w))"
  shows "sample_loop Clock_now f N i samples w = (Inr s, w') \<Longrightarrow> cnt w' = cnt w + (N - i)"
proof (induction "N - i" arbitrary: i samples w)
  case 0
  then show ?case by (simp add: sample_loop_exit)
next
  case (Suc n)
  then have lt: "i < N" and n: "n = N - Suc i" by simp_all
  let ?w1 = "snd (Clock_now (snd (f (snd (Clock_now w)))))"
  from ok have "\<not> isl (fst (f (snd (Clock_now w))))" by simp
  from time_returns [where f = f and Clock_now = Clock_now and w = w, OF this] obtain d where t: "time Clock_now f w = (Inr d, ?w1)" by blast
  from clk inv have c: "cnt ?w1 = Suc (cnt w)" by simp
  from Suc.prems lt t
  have "sample_loop Clock_now f N (Suc i) (samples[i := d]) ?w1 = (Inr s, w')"
    by (simp add: sample_loop_step)
  from Suc(1) [OF n this] c lt show ?case by simp
qed

lemma sample_loop_fails:
  assumes clk: "\<forall>w. cnt (snd (Clock_now w)) = cnt w"
    and inv: "\<forall>w. cnt (snd (f w)) = Suc (cnt w)"
    and clk_r: "\<forall>w. rds (snd (Clock_now w)) = Suc (rds w)"
    and inv_r: "\<forall>w. rds (snd (f w)) = rds w"
    and ok: "\<forall>w. cnt w < c \<longrightarrow> \<not> isl (fst (f w))"
    and bad: "\<forall>w. cnt w = c \<longrightarrow> fst (f w) = Inl e"
  shows "cnt w \<le> c \<Longrightarrow> c - cnt w < N - i \<Longrightarrow>
         \<exists>w'. sample_loop Clock_now f N i samples w = (Inl e, w') \<and> cnt w' = Suc c
             \<and> rds w' = rds w + 2 * (c - cnt w) + 1"
proof (induction "c - cnt w" arbitrary: i samples w)
  case 0
  then have lt: "i < N" and eq: "cnt w = c" by simp_all
  let ?w2 = "snd (f (snd (Clock_now w)))"
  from clk eq bad have "fst (f (snd (Clock_now w))) = Inl e" by simp
  from time_raises [where f = f and Clock_now = Clock_now and w = w, OF this] have t: "time Clock_now f w = (Inl e, ?w2)" .
  from clk inv eq have "cnt ?w2 = Suc c" by simp
  moreover from clk_r inv_r have "rds ?w2 = Suc (rds w)" by simp
  ultimately show ?case using lt t eq by (simp add: sample_loop_raise)
next
  case (Suc n)
  then have lt: "i < N" and less: "cnt w < c" by simp_all
  let ?w1 = "snd (Clock_now (snd (f (snd (Clock_now w)))))"
  from clk less ok have "\<not> isl (fst (f (snd (Clock_now w))))" by simp
  from time_returns [where f = f and Clock_now = Clock_now and w = w, OF this] obtain d where t: "time Clock_now f w = (Inr d, ?w1)" by blast
  from clk inv have c1: "cnt ?w1 = Suc (cnt w)" by simp
  from clk_r inv_r have r1: "rds ?w1 = rds w + 2" by simp
  from Suc(2) c1 have n: "n = c - cnt ?w1" by simp
  from less c1 have le: "cnt ?w1 \<le> c" by simp
  from Suc.prems c1 less have "c - cnt ?w1 < N - Suc i" by arith
  from Suc(1) [OF n le this, of "samples[i := d]"] obtain w' where
    "sample_loop Clock_now f N (Suc i) (samples[i := d]) ?w1 = (Inl e, w')"
    "cnt w' = Suc c" "rds w' = rds ?w1 + 2 * (c - cnt ?w1) + 1" by blast
  with lt t c1 r1 less show ?case by (simp add: sample_loop_step)
qed

lemma sample_loop_junk:
  "length xs = N \<Longrightarrow> length ys = N \<Longrightarrow> i \<le> N \<Longrightarrow> take i xs = take i ys \<Longrightarrow>
   sample_loop Clock_now f N i xs w = sample_loop Clock_now f N i ys w"
proof (induction "N - i" arbitrary: i xs ys w)
  case 0
  then have "i = N" by simp
  with 0 show ?case by (simp add: sample_loop_exit)
next
  case (Suc n)
  then have lt: "i < N" and n: "n = N - Suc i" by simp_all
  obtain r w1 where t: "time Clock_now f w = (r, w1)" by (cases "time Clock_now f w")
  show ?case
  proof (cases r)
    case (Inl e)
    with lt t show ?thesis by (simp add: sample_loop_raise)
  next
    case (Inr d)
    from Suc.prems lt have "take (Suc i) (xs[i := d]) = take (Suc i) (ys[i := d])"
      by (simp add: take_Suc_conv_app_nth)
    with Suc.prems lt
    have "sample_loop Clock_now f N (Suc i) (xs[i := d]) w1
        = sample_loop Clock_now f N (Suc i) (ys[i := d]) w1"
      by (intro Suc(1) [OF n]) simp_all
    with lt t Inr show ?thesis by (simp add: sample_loop_step)
  qed
qed

lemma sample_junk_irrelevant:
  "sample N Clock_now f junk w = sample N Clock_now f junk' w"
  using sample_loop_junk [of "replicate N junk" N "replicate N junk'" 0 Clock_now f w]
  by (simp add: sample_def)

lemma std_sort_sorted:
  "length (std_sort xs) = length xs \<and> sorted (map count (std_sort xs))
   \<and> (\<forall>i. Suc i < length xs \<longrightarrow> count (std_sort xs ! i) \<le> count (std_sort xs ! Suc i))"
proof -
  have s: "sorted (map count (std_sort xs))" by (simp add: std_sort_def)
  have l: "length (std_sort xs) = length xs" by (simp add: std_sort_def)
  have "count (std_sort xs ! i) \<le> count (std_sort xs ! Suc i)" if "Suc i < length xs" for i
    using s that l sorted_iff_nth_Suc [of "map count (std_sort xs)"] by simp
  with s l show ?thesis by blast
qed

section \<open>The claims\<close>

text \<open>
  C1. For every sample count \<open>N\<close> and every callable that completes without raising,
  \<open>sample<N>\<close> returns exactly \<open>N\<close> durations, in ascending order (each element is at most
  its successor), and any call counter has gone up by exactly \<open>N\<close>. For \<open>N = 0\<close> the result
  is the empty sequence and the world is untouched: the callable was never invoked.
\<close>

theorem sample_returns_N_sorted:
  fixes Clock_now :: "('r::{minus, linorder}, 'w) clock_now"
  assumes ok: "\<forall>w. \<not> isl (fst (f w))"
  shows "(\<exists>s w'. sample N Clock_now f junk w = (Inr s, w')
           \<and> length s = N
           \<and> sorted (map count s)
           \<and> (\<forall>i. Suc i < N \<longrightarrow> count (s ! i) \<le> count (s ! Suc i))
           \<and> ((\<forall>v. cnt (snd (Clock_now v)) = cnt v) \<and> (\<forall>v. cnt (snd (f v)) = Suc (cnt v))
                \<longrightarrow> cnt w' = cnt w + N))
       \<and> sample 0 Clock_now f junk w = (Inr [], w)"
proof -
  from sample_loop_completes [OF ok] obtain s0 w' where
    l: "sample_loop Clock_now f N 0 (replicate N junk) w = (Inr s0, w')" by blast
  then have r: "sample N Clock_now f junk w = (Inr (std_sort s0), w')"
    by (simp add: sample_def)
  from sample_loop_length [OF l] have len: "length s0 = N" by simp
  have c: "cnt w' = cnt w + N"
    if "\<forall>v. cnt (snd (Clock_now v)) = cnt v" and "\<forall>v. cnt (snd (f v)) = Suc (cnt v)"
    using sample_loop_calls [OF that ok l] by simp
  have zero: "sample 0 Clock_now f junk w = (Inr [], w)"
    by (simp add: sample_def sample_loop_exit std_sort_def)
  from std_sort_sorted [of s0] len
  have "length (std_sort s0) = N" "sorted (map count (std_sort s0))"
    "\<forall>i. Suc i < N \<longrightarrow> count (std_sort s0 ! i) \<le> count (std_sort s0 ! Suc i)"
    by simp_all
  with r c zero show ?thesis by blast
qed

theorem sample_returns_N_sorted_witness:
  "sample 3 (rdtscp_clock_now LINUX bench_cpu) (bench_callable None) (Duration 0)
     \<lparr>calls = 0, reads = 0, script = [(0, 0), (0, 50), (0, 60), (0, 70), (0, 100), (0, 130)]\<rparr>
   = (Inr [Duration 10, Duration 30, Duration 50], \<lparr>calls = 3, reads = 6, script = []\<rparr>)
 \<and> (\<forall>b. \<not> isl (fst (bench_callable None b)))
 \<and> (\<forall>b. calls (snd (rdtscp_clock_now LINUX bench_cpu b)) = calls b)
 \<and> (\<forall>b. calls (snd (bench_callable None b)) = Suc (calls b))"
proof -
  have ok: "\<forall>b. \<not> isl (fst (bench_callable None b))"
    by (simp add: bench_callable_def)
  have clk: "\<forall>b. calls (snd (rdtscp_clock_now LINUX bench_cpu b)) = calls b"
    by (simp add: rdtscp_clock_now_def bench_cpu_def bench_asm_def split: prod.splits)
  have inv: "\<forall>b. calls (snd (bench_callable None b)) = Suc (calls b)"
    by (simp add: bench_callable_def)
  have run: "sample 3 (rdtscp_clock_now LINUX bench_cpu) (bench_callable None) (Duration 0)
     \<lparr>calls = 0, reads = 0, script = [(0, 0), (0, 50), (0, 60), (0, 70), (0, 100), (0, 130)]\<rparr>
   = (Inr [Duration 10, Duration 30, Duration 50], \<lparr>calls = 3, reads = 6, script = []\<rparr>)"
    using sample_returns_N_sorted [OF ok, of 3 "rdtscp_clock_now LINUX bench_cpu" "Duration 0"
      "\<lparr>calls = 0, reads = 0, script = [(0, 0), (0, 50), (0, 60), (0, 70), (0, 100), (0, 130)]\<rparr>"
      calls]
    by (simp add: sample_def sample_loop.simps time_def rdtscp_clock_now_def bench_cpu_def
        bench_asm_def bench_callable_def tp_minus_def std_sort_def numeral_3_eq_3)
  from run ok clk inv show ?thesis by blast
qed

text \<open>
  C2. \<open>timer.done(now)\<close> is true exactly when \<open>now >= expiry\<close>: false for every \<open>now\<close>
  strictly before the expiry and true from the expiry on. A supplied \<open>now\<close> leaves the
  world alone; without the argument the call reads the clock in the world it is made in
  and answers for that reading.
\<close>

theorem timer_done_iff:
  fixes t :: "'r::linorder timer"
  shows "fst (timer_done Clock_now t (Some now) w)
           = (count (time_since_epoch (expiry t)) \<le> count (time_since_epoch now))
       \<and> fst (timer_done Clock_now t (Some now) w)
           = (\<not> count (time_since_epoch now) < count (time_since_epoch (expiry t)))
       \<and> snd (timer_done Clock_now t (Some now) w) = w
       \<and> timer_done Clock_now t None w
           = timer_done Clock_now t (Some (fst (Clock_now w))) (snd (Clock_now w))"
  by (auto simp add: timer_done_def default_now_def tp_ge_def split: prod.splits)

text \<open>
  C3. \<open>timer.remaining(now)\<close> is \<open>expiry - now\<close>; for a timer built from the time point
  \<open>tp\<close>, \<open>remaining(tp)\<close> is the zero duration and \<open>remaining(now)\<close> is \<open>tp - now\<close>.
\<close>

theorem timer_remaining_exact:
  fixes t :: "'r::group_add timer"
  shows "fst (timer_remaining Clock_now t (Some now) w)
           = Duration (count (time_since_epoch (expiry t)) - count (time_since_epoch now))
       \<and> fst (timer_remaining Clock_now (timer_of_time_point tp) (Some tp) w) = Duration 0
       \<and> fst (timer_remaining Clock_now (timer_of_time_point tp) (Some now) w)
           = Duration (count (time_since_epoch tp) - count (time_since_epoch now))"
  by (simp add: timer_remaining_def default_now_def tp_minus_def timer_of_time_point_def)

text \<open>
  C4. A timer built from the duration \<open>d\<close> in the world \<open>w\<close> expires at
  \<open>Clock::now() + d\<close> for the clock reading taken in \<open>w\<close>, and that reading is the only
  effect of the construction. A query made later, in any world \<open>w2\<close>, still measures
  against that deadline.
\<close>

theorem timer_of_duration_anchored:
  fixes Clock_now :: "('r::{plus, minus, ord}, 'w) clock_now"
  shows "expiry (fst (timer_of_duration Clock_now d w))
           = Time_point (Duration (count (time_since_epoch (fst (Clock_now w))) + count d))
       \<and> snd (timer_of_duration Clock_now d w) = snd (Clock_now w)
       \<and> fst (timer_remaining Clock_now (fst (timer_of_duration Clock_now d w)) None w2)
           = Duration (count (time_since_epoch (fst (Clock_now w))) + count d
                       - count (time_since_epoch (fst (Clock_now w2))))
       \<and> fst (timer_done Clock_now (fst (timer_of_duration Clock_now d w)) None w2)
           = (count (time_since_epoch (fst (Clock_now w))) + count d
                \<le> count (time_since_epoch (fst (Clock_now w2))))"
  by (simp add: timer_of_duration_def timer_remaining_def timer_done_def default_now_def
      tp_plus_def tp_minus_def tp_ge_def split: prod.splits)

text \<open>
  C5. When the callable throws, \<open>time\<close> hands the exception on and leaves the world as the
  callable left it: the second clock read does not happen. When the callable's \<open>k\<close>-th
  invocation under \<open>sample<N>\<close> throws (\<open>k \<le> N\<close>, the earlier ones return), \<open>sample\<close> hands
  that exception on and returns no sequence; the call counter stands at \<open>k\<close> more than at
  the start, and the clock has been read \<open>2k - 1\<close> times: twice for each invocation that
  returned, once for the one that threw.
\<close>

theorem callable_failure_propagates:
  fixes Clock_now :: "('r::{minus, linorder}, 'w) clock_now"
  shows "(fst (f (snd (Clock_now w))) = Inl e
            \<longrightarrow> time Clock_now f w = (Inl e, snd (f (snd (Clock_now w)))))
       \<and> ((\<forall>v. cnt (snd (Clock_now v)) = cnt v) \<and> (\<forall>v. cnt (snd (f v)) = Suc (cnt v))
          \<and> (\<forall>v. rds (snd (Clock_now v)) = Suc (rds v)) \<and> (\<forall>v. rds (snd (f v)) = rds v)
          \<and> (\<forall>v. cnt v < cnt w0 + k - 1 \<longrightarrow> \<not> isl (fst (f v)))
          \<and> (\<forall>v. cnt v = cnt w0 + k - 1 \<longrightarrow> fst (f v) = Inl e)
          \<and> 1 \<le> k \<and> k \<le> N
            \<longrightarrow> fst (sample N Clock_now f junk w0) = Inl e
              \<and> cnt (snd (sample N Clock_now f junk w0)) = cnt w0 + k
              \<and> rds (snd (sample N Clock_now f junk w0)) = rds w0 + 2 * k - 1)"
proof -
  have t: "time Clock_now f w = (Inl e, snd (f (snd (Clock_now w))))"
    if "fst (f (snd (Clock_now w))) = Inl e"
    using time_raises [where f = f and Clock_now = Clock_now and w = w, OF that] .
  have s: "fst (sample N Clock_now f junk w0) = Inl e
       \<and> cnt (snd (sample N Clock_now f junk w0)) = cnt w0 + k
       \<and> rds (snd (sample N Clock_now f junk w0)) = rds w0 + 2 * k - 1"
    if clk: "\<forall>v. cnt (snd (Clock_now v)) = cnt v"
      and inv: "\<forall>v. cnt (snd (f v)) = Suc (cnt v)"
      and clk_r: "\<forall>v. rds (snd (Clock_now v)) = Suc (rds v)"
      and inv_r: "\<forall>v. rds (snd (f v)) = rds v"
      and ok: "\<forall>v. cnt v < cnt w0 + k - 1 \<longrightarrow> \<not> isl (fst (f v))"
      and bad: "\<forall>v. cnt v = cnt w0 + k - 1 \<longrightarrow> fst (f v) = Inl e"
      and k: "1 \<le> k" "k \<le> N"
  proof -
    from k have le: "cnt w0 \<le> cnt w0 + k - 1" and lt: "cnt w0 + k - 1 - cnt w0 < N - 0"
      by simp_all
    from sample_loop_fails [OF clk inv clk_r inv_r ok bad le lt, of "replicate N junk"]
    obtain w' where "sample_loop Clock_now f N 0 (replicate N junk) w0 = (Inl e, w')"
      "cnt w' = Suc (cnt w0 + k - 1)" "rds w' = rds w0 + 2 * (cnt w0 + k - 1 - cnt w0) + 1"
      by auto
    with k show ?thesis
      by (simp add: sample_def)
  qed
  from t s show ?thesis by blast
qed

theorem callable_failure_propagates_witness:
  "time (rdtscp_clock_now LINUX bench_cpu) (bench_callable (Some 1))
     \<lparr>calls = 1, reads = 0, script = [(0, 0), (0, 50)]\<rparr>
   = (Inl ''boom'', \<lparr>calls = 2, reads = 1, script = [(0, 50)]\<rparr>)
 \<and> sample 3 (rdtscp_clock_now LINUX bench_cpu) (bench_callable (Some 1)) (Duration 0)
     \<lparr>calls = 0, reads = 0, script = [(0, 0), (0, 50), (0, 60), (0, 70), (0, 100), (0, 130)]\<rparr>
   = (Inl ''boom'', \<lparr>calls = 2, reads = 3, script = [(0, 70), (0, 100), (0, 130)]\<rparr>)"
proof -
  let ?Clock = "rdtscp_clock_now LINUX bench_cpu"
  let ?f = "bench_callable (Some 1)"
  let ?fail = "\<lparr>calls = 1, reads = 0, script = [(0, 0), (0, 50)]\<rparr>"
  let ?init = "\<lparr>calls = 0, reads = 0,
    script = [(0, 0), (0, 50), (0, 60), (0, 70), (0, 100), (0, 130)]\<rparr>"
  have clk: "\<forall>b. calls (snd (?Clock b)) = calls b" "\<forall>b. reads (snd (?Clock b)) = Suc (reads b)"
    by (simp_all add: rdtscp_clock_now_def bench_cpu_def bench_asm_def split: prod.splits)
  have inv: "\<forall>b. calls (snd (?f b)) = Suc (calls b)" "\<forall>b. reads (snd (?f b)) = reads b"
    by (simp_all add: bench_callable_def)
  have ok: "\<forall>b. calls b < 1 \<longrightarrow> \<not> isl (fst (?f b))"
    by (simp add: bench_callable_def)
  have bad: "\<forall>b. calls b = 1 \<longrightarrow> fst (?f b) = Inl ''boom''"
    by (simp add: bench_callable_def)
  have first: "fst (?f (snd (?Clock ?fail))) = Inl ''boom''"
    by (simp add: rdtscp_clock_now_def bench_cpu_def bench_asm_def bench_callable_def)
  have run: "time ?Clock ?f ?fail = (Inl ''boom'', \<lparr>calls = 2, reads = 1, script = [(0, 50)]\<rparr>)
    \<and> sample 3 ?Clock ?f (Duration 0) ?init
        = (Inl ''boom'', \<lparr>calls = 2, reads = 3, script = [(0, 70), (0, 100), (0, 130)]\<rparr>)"
    using callable_failure_propagates [of ?f ?Clock ?fail "''boom''" calls reads ?init 2 3 "Duration 0"]
      clk inv ok bad first
    by (simp add: sample_def sample_loop.simps time_def rdtscp_clock_now_def bench_cpu_def
        bench_asm_def bench_callable_def tp_minus_def numeral_3_eq_3)
  from run show ?thesis by blast
qed

text \<open>
  C6, as the header has it. \<open>time\<close> and \<open>sample\<close> use \<open>rdtscp_clock\<close> when the caller names
  no clock; \<open>timer\<close> and \<open>make_timer\<close> use \<open>std::chrono::system_clock\<close>; a clock that the
  caller names is the one used. The claim that every component defaults to the
  hardware-counter clock fails at \<open>timer\<close>.
\<close>

theorem default_clocks:
  "Clock_of Time None = rdtscp_clock
 \<and> Clock_of Sample None = rdtscp_clock
 \<and> Clock_of Timer None = system_clock
 \<and> Clock_of Make_timer None = system_clock
 \<and> Clock_of c (Some k) = k"
  by (simp add: Clock_of_def default_Clock_def)

theorem timer_default_not_rdtscp:
  "Clock_of Timer None \<noteq> rdtscp_clock"
  by (simp add: Clock_of_def default_Clock_def)

text \<open>
  C7. Whatever sequence of calls is made on a timer, the object afterwards is the object
  before, so its \<open>expiry\<close> is the one set at construction. Each call's value is a function
  of \<open>expiry\<close> and of \<open>now\<close> alone, where \<open>now\<close> is the argument or, without one, the clock
  reading taken at the call; a call with an argument leaves the world untouched.
\<close>

theorem timer_never_mutated:
  fixes t :: "'r::{ord, minus} timer"
  shows "snd (fst (timer_calls Clock_now t cs w)) = t
       \<and> expiry (snd (fst (timer_calls Clock_now t cs w))) = expiry t
       \<and> timer_call Clock_now t (Done (Some now)) w
           = ((Bool (count (time_since_epoch (expiry t)) \<le> count (time_since_epoch now)), t), w)
       \<and> timer_call Clock_now t (Remaining (Some now)) w
           = ((Span (Duration (count (time_since_epoch (expiry t))
                               - count (time_since_epoch now))), t), w)
       \<and> timer_call Clock_now t (Done None) w
           = ((Bool (count (time_since_epoch (expiry t))
                      \<le> count (time_since_epoch (fst (Clock_now w)))), t), snd (Clock_now w))
       \<and> timer_call Clock_now t (Remaining None) w
           = ((Span (Duration (count (time_since_epoch (expiry t))
                               - count (time_since_epoch (fst (Clock_now w))))), t),
              snd (Clock_now w))"
  by (simp add: timer_calls_object timer_call_def timer_done_def timer_remaining_def
      default_now_def tp_ge_def tp_minus_def split: prod.splits)

text \<open>
  C8. \<open>rdtscp_clock\<close> counts in unsigned 64-bit ticks (every reading is below \<open>2^64\<close>) with
  the period \<open>1/1\<close>. Where \<open>now()\<close> runs the instruction itself (\<open>__APPLE__\<close>, \<open>__linux__\<close>) it
  returns the time point of \<open>(hi << 32) | lo\<close>: the count \<open>hi * 2^32 + lo\<close>, whose upper half
  is \<open>hi\<close> and whose lower half is \<open>lo\<close>. On \<open>__WIN32\<close> it returns the time point of the
  64-bit value that the intrinsic delivers.
\<close>

theorem rdtscp_clock_now_combines:
  "num rdtscp_period = 1 \<and> den rdtscp_period = 1
 \<and> unat (count (time_since_epoch (fst (rdtscp_clock_now p c w)))) < 2 ^ 64
 \<and> (p \<noteq> WIN32 \<longrightarrow>
       rdtscp_clock_now p c w
         = (Time_point (Duration (push_bit 32 (ucast (fst (fst (asm_rdtscp c w))))
                                  OR ucast (snd (fst (asm_rdtscp c w))))),
            snd (asm_rdtscp c w))
     \<and> unat (count (time_since_epoch (fst (rdtscp_clock_now p c w))))
         = unat (fst (fst (asm_rdtscp c w))) * 2 ^ 32 + unat (snd (fst (asm_rdtscp c w)))
     \<and> ucast (drop_bit 32 (count (time_since_epoch (fst (rdtscp_clock_now p c w)))))
         = fst (fst (asm_rdtscp c w))
     \<and> ucast (count (time_since_epoch (fst (rdtscp_clock_now p c w))))
         = snd (fst (asm_rdtscp c w)))
 \<and> rdtscp_clock_now WIN32 c w
     = (Time_point (Duration (fst (fst (intrin_rdtscp c w)))), snd (intrin_rdtscp c w))"
proof -
  obtain hi lo w' where asm: "asm_rdtscp c w = ((hi, lo), w')"
    by (cases "asm_rdtscp c w") auto
  have a: "unat (count (time_since_epoch (fst (rdtscp_clock_now p c w)))) < 2 ^ 64"
    using unsigned_less [of "count (time_since_epoch (fst (rdtscp_clock_now p c w)))", where 'a = nat]
    by simp
  have b: "rdtscp_clock_now p c w = (Time_point (Duration (push_bit 32 (ucast hi) OR ucast lo)), w')"
    if "p \<noteq> WIN32"
    using that asm by (cases p) (simp_all add: rdtscp_clock_now_def)
  have d: "rdtscp_clock_now WIN32 c w
     = (Time_point (Duration (fst (fst (intrin_rdtscp c w)))), snd (intrin_rdtscp c w))"
    by (simp add: rdtscp_clock_now_def split: prod.splits)
  have e: "unat (count (time_since_epoch (fst (rdtscp_clock_now p c w))))
               = unat hi * 2 ^ 32 + unat lo
         \<and> ucast (drop_bit 32 (count (time_since_epoch (fst (rdtscp_clock_now p c w))))) = hi
         \<and> ucast (count (time_since_epoch (fst (rdtscp_clock_now p c w)))) = lo"
    if "p \<noteq> WIN32"
    unfolding b [OF that] fst_conv time_point.sel duration.sel
    by (intro conjI combine_unat combine_hi combine_lo)
  have f: "num rdtscp_period = 1 \<and> den rdtscp_period = 1"
    by (simp add: rdtscp_period_def)
  from a b d e f show ?thesis
    unfolding asm fst_conv snd_conv by blast
qed

theorem rdtscp_clock_now_combines_witness:
  "rdtscp_clock_now LINUX bench_cpu \<lparr>calls = 0, reads = 0, script = [(1, 2)]\<rparr>
     = (Time_point (Duration 4294967298), \<lparr>calls = 0, reads = 1, script = []\<rparr>)"
  using rdtscp_clock_now_combines [of LINUX bench_cpu
      "\<lparr>calls = 0, reads = 0, script = [(1, 2)]\<rparr>"]
  by (simp add: bench_cpu_def bench_asm_def)

text \<open>
  C9. On the hardware-counter clock, \<open>remaining(now)\<close> for a \<open>now\<close> after the expiry is not
  zero: the unsigned subtraction wraps, and the result is \<open>(expiry - now) mod 2^64\<close>, that
  is \<open>2^64 - (now - expiry)\<close> ticks, at least \<open>2^63\<close> of them as long as \<open>now\<close> is no more
  than \<open>2^63\<close> ticks past the expiry.
\<close>

theorem rdtscp_remaining_wraps:
  fixes t :: "rdtscp_rep timer"
  assumes "count (time_since_epoch now) > count (time_since_epoch (expiry t))"
  shows "unat (count (fst (timer_remaining Clock_now t (Some now) w)))
           = 2 ^ 64 - (unat (count (time_since_epoch now))
                       - unat (count (time_since_epoch (expiry t))))
       \<and> uint (count (fst (timer_remaining Clock_now t (Some now) w)))
           = (uint (count (time_since_epoch (expiry t)))
              - uint (count (time_since_epoch now))) mod 2 ^ 64
       \<and> count (fst (timer_remaining Clock_now t (Some now) w)) \<noteq> 0
       \<and> (unat (count (time_since_epoch now)) - unat (count (time_since_epoch (expiry t)))
             \<le> 2 ^ 63
           \<longrightarrow> 2 ^ 63 \<le> unat (count (fst (timer_remaining Clock_now t (Some now) w))))"
proof -
  let ?e = "count (time_since_epoch (expiry t))" and ?n = "count (time_since_epoch now)"
  have r: "count (fst (timer_remaining Clock_now t (Some now) w)) = ?e - ?n"
    by (simp add: timer_remaining_def default_now_def tp_minus_def)
  from assms have nz: "?e - ?n \<noteq> 0" by auto
  from unat_sub_wraps [OF assms]
  have big: "2 ^ 63 \<le> unat (?e - ?n)" if "unat ?n - unat ?e \<le> 2 ^ 63"
    using that by simp
  from r nz big unat_sub_wraps [OF assms] show ?thesis
    by (simp add: uint_word_ariths)
qed

theorem rdtscp_remaining_wraps_witness:
  "unat (count (fst (timer_remaining (rdtscp_clock_now LINUX bench_cpu)
        \<lparr>expiry = Time_point (Duration 5)\<rparr> (Some (Time_point (Duration 7)))
        \<lparr>calls = 0, reads = 0, script = []\<rparr>)))
     = 18446744073709551614"
  using rdtscp_remaining_wraps [of "\<lparr>expiry = Time_point (Duration 5)\<rparr>" "Time_point (Duration 7)"
      "rdtscp_clock_now LINUX bench_cpu" "\<lparr>calls = 0, reads = 0, script = []\<rparr>"]
  by simp

text \<open>
  C10. \<open>make_timer<Clock>(d)\<close> is \<open>timer<Clock>(d)\<close>: the same timer and the same single
  clock read, with the expiry at that reading plus \<open>d\<close>.
\<close>

theorem make_timer_is_timer:
  fixes Clock_now :: "('r::plus, 'w) clock_now"
  shows "make_timer Clock_now d w = timer_of_duration Clock_now d w
       \<and> expiry (fst (make_timer Clock_now d w)) = tp_plus (fst (Clock_now w)) d
       \<and> snd (make_timer Clock_now d w) = snd (Clock_now w)"
  by (simp add: make_timer_def timer_of_duration_def split: prod.splits)

end
